theory Spec2Isabelle
  imports Complex_Main "HOL-Library.Sublist" "HOL-Library.Multiset" "HOL-Library.AList"
begin

text \<open>
  The receipt scanner's extraction pipeline: the endpoint \<open>POST\<close> of
  \<open>app/api/analyze-receipt/route.ts\<close>, which validates the transcript, asks the
  completion service and normalizes its answer, and the helpers \<open>formatValue\<close> and
  \<open>calculateTotalDiscounts\<close> of \<open>components/receipt-scanner.tsx\<close>, which print and
  sum the money fields of the normalized record.

  The code is JavaScript: its values are dynamically typed, its numbers are binary64
  floating point, and its operators convert between the two as they go. The first
  section models the part of the language the code relies on; the later ones follow
  the source line by line. What the platform provides and no property depends on,
  \<open>JSON.parse\<close> and the network, is a parameter.
\<close>

section \<open>JavaScript values\<close>

text \<open>
  A JavaScript Number is an IEEE 754 binary64 value. A finite one is modelled by the
  rational it denotes; the two zeros are one value, \<open>Fin 0\<close> (the program never
  divides by a zero or compares with \<open>Object.is\<close>, the only ways to tell them apart).
\<close>

datatype number = Fin rat | PInf | NInf | NaN

text \<open>For an integer \<open>n \<ge> 1\<close>: the number of binary, and of decimal, digits after the first.\<close>

function ilog2 :: "int \<Rightarrow> int" where
  "ilog2 n = (if n \<le> 1 then 0 else 1 + ilog2 (n div 2))"
  by pat_completeness auto
termination
  by (relation "measure nat") auto

function ilog10 :: "int \<Rightarrow> int" where
  "ilog10 n = (if n < 10 then 0 else 1 + ilog10 (n div 10))"
  by pat_completeness auto
termination
  by (relation "measure nat") auto

definition pow2 :: "int \<Rightarrow> rat" where
  "pow2 k = (if 0 \<le> k then 2 ^ nat k else 1 / 2 ^ nat (- k))"

definition pow10 :: "int \<Rightarrow> rat" where
  "pow10 k = (if 0 \<le> k then 10 ^ nat k else 1 / 10 ^ nat (- k))"

text \<open>
  For \<open>q > 0\<close>, the \<open>e\<close> with \<open>2 ^ e \<le> q < 2 ^ (e + 1)\<close>, from the bit lengths of
  the numerator and the denominator; and the same in base ten.
\<close>

definition floor_log2 :: "rat \<Rightarrow> int" where
  "floor_log2 q =
     (let (a, b) = quotient_of q; e = ilog2 a - ilog2 b in if pow2 e \<le> q then e else e - 1)"

definition floor_log10 :: "rat \<Rightarrow> int" where
  "floor_log10 q =
     (let (a, b) = quotient_of q; e = ilog10 a - ilog10 b in if pow10 e \<le> q then e else e - 1)"

definition round_half_even :: "rat \<Rightarrow> int" where
  "round_half_even x =
     (let f = \<lfloor>x\<rfloor>; d = x - of_int f in
      if d < 1 / 2 then f else if 1 / 2 < d then f + 1 else if even f then f else f + 1)"

text \<open>
  The Number nearest to a real: round to nearest, ties to even, with a significand of
  53 bits, the least exponent \<open>-1074\<close> (subnormals), and overflow to an infinity from
  \<open>2 ^ 1024\<close> on. \<open>m\<close> is the significand as an integer, at most \<open>2 ^ 53\<close>.
\<close>

definition round_double :: "rat \<Rightarrow> number" where
  "round_double q =
     (if q = 0 then Fin 0
      else
        let e = floor_log2 \<bar>q\<bar>;
            p = max (e - 52) (- 1074);
            m = round_half_even (\<bar>q\<bar> / pow2 p)
        in if 1024 \<le> e \<or> (e = 1023 \<and> m = 9007199254740992)
           then (if 0 < q then PInf else NInf)
           else Fin ((if 0 < q then 1 else - 1) * of_int m * pow2 p))"

text \<open>\<open>x + y\<close> on two Numbers.\<close>

fun js_add :: "number \<Rightarrow> number \<Rightarrow> number" where
  "js_add NaN y = NaN"
| "js_add x NaN = NaN"
| "js_add PInf NInf = NaN"
| "js_add NInf PInf = NaN"
| "js_add PInf y = PInf"
| "js_add x PInf = PInf"
| "js_add NInf y = NInf"
| "js_add x NInf = NInf"
| "js_add (Fin a) (Fin b) = round_double (a + b)"

text \<open>The decimal digits of an integer \<open>n \<ge> 0\<close>.\<close>

function digits :: "int \<Rightarrow> string" where
  "digits n =
     (if n < 10 then [''0123456789'' ! nat n]
      else digits (n div 10) @ [''0123456789'' ! nat (n mod 10)])"
  by pat_completeness auto
termination
  by (relation "measure nat") auto

text \<open>
  Number::toString (radix 10), step 5, for \<open>q > 0\<close>: integers \<open>n\<close>, \<open>k\<close>, \<open>s\<close> with
  \<open>10 ^ (k - 1) \<le> s < 10 ^ k\<close>, such that \<open>s * 10 ^ (n - k)\<close> rounds to \<open>q\<close> and \<open>k\<close> is
  as small as possible; of two such \<open>s\<close> the one nearer to \<open>q\<close>, and the even one
  when they are as near. The search starts at \<open>k = 1\<close>; a Number needs at most 17
  digits. Only the two integers around \<open>q / 10 ^ (n - k)\<close> can be the nearest.
\<close>

definition closer :: "rat \<Rightarrow> int \<times> int \<Rightarrow> int \<times> int \<Rightarrow> rat \<Rightarrow> int \<times> int" where
  "closer q lo hi scale =
     (let dl = q - of_int (fst lo) * scale; dh = of_int (fst hi) * scale - q in
      if dl < dh then lo else if dh < dl then hi else if even (fst lo) then lo else hi)"

fun shortest :: "nat \<Rightarrow> rat \<Rightarrow> int \<Rightarrow> int \<Rightarrow> int \<times> int \<times> int" where
  "shortest 0 q n0 k = (\<lfloor>q / pow10 (n0 - k)\<rfloor>, n0, k)"
| "shortest (Suc fuel) q n0 k =
     (let scale = pow10 (n0 - k);
          lo = \<lfloor>q / scale\<rfloor>;
          hi = lo + 1;
          lo_ok = (round_double (of_int lo * scale) = Fin q);
          hi_ok = (round_double (of_int hi * scale) = Fin q);
          hi' = (if of_int hi = pow10 k then (hi div 10, n0 + 1) else (hi, n0))
      in if lo_ok \<and> hi_ok then (let (s, n) = closer q (lo, n0) hi' scale in (s, n, k))
         else if lo_ok then (lo, n0, k)
         else if hi_ok then (fst hi', snd hi', k)
         else shortest fuel q n0 (k + 1))"

text \<open>Number::toString, steps 6 to 10: the digits laid out.\<close>

definition Number_toString_pos :: "rat \<Rightarrow> string" where
  "Number_toString_pos q =
     (let (s, n, k) = shortest 17 q (floor_log10 q + 1) 1; ds = digits s in
      if k \<le> n \<and> n \<le> 21 then ds @ replicate (nat (n - k)) CHR ''0''
      else if 0 < n \<and> n \<le> 21 then take (nat n) ds @ ''.'' @ drop (nat n) ds
      else if - 6 < n \<and> n \<le> 0 then ''0.'' @ replicate (nat (- n)) CHR ''0'' @ ds
      else (let e = (if 0 \<le> n - 1 then ''+'' else ''-'') @ digits \<bar>n - 1\<bar> in
            if k = 1 then ds @ ''e'' @ e
            else take 1 ds @ ''.'' @ drop 1 ds @ ''e'' @ e))"

definition Number_toString :: "number \<Rightarrow> string" where
  "Number_toString x =
     (case x of
        NaN \<Rightarrow> ''NaN''
      | PInf \<Rightarrow> ''Infinity''
      | NInf \<Rightarrow> ''-Infinity''
      | Fin q \<Rightarrow>
          if q = 0 then ''0''
          else if q < 0 then ''-'' @ Number_toString_pos (- q)
          else Number_toString_pos q)"

text \<open>
  \<open>x.toFixed(2)\<close>: a Number that is not finite prints as Number::toString does; below
  zero the sign is set aside; from \<open>10 ^ 21\<close> on the result is Number::toString's;
  otherwise \<open>n\<close> is the integer nearest to \<open>100 * x\<close>, the larger of two, and its
  digits are padded with zeros to three and split before the last two.
\<close>

definition toFixed2 :: "number \<Rightarrow> string" where
  "toFixed2 x =
     (case x of
        Fin q \<Rightarrow>
          (if q < 0 then ''-'' else []) @
          (if 10 ^ 21 \<le> \<bar>q\<bar> then Number_toString (Fin \<bar>q\<bar>)
           else
             (let n = \<lfloor>\<bar>q\<bar> * 100 + 1 / 2\<rfloor>;
                  m = (if n < 100 then replicate (3 - length (digits n)) CHR ''0'' @ digits n
                       else digits n)
              in take (length m - 2) m @ ''.'' @ drop (length m - 2) m))
      | _ \<Rightarrow> Number_toString x)"

text \<open>
  The white space and line terminators that \<open>String.prototype.trim\<close> and
  \<open>parseFloat\<close> skip, among the characters a \<open>string\<close> of this theory can hold (code
  units below 256): TAB, LF, VT, FF, CR, SP and NBSP.
\<close>

definition isWhiteSpace :: "char \<Rightarrow> bool" where
  "isWhiteSpace c =
     (c = CHR 0x09 \<or> c = CHR 0x0A \<or> c = CHR 0x0B \<or> c = CHR 0x0C \<or> c = CHR 0x0D
      \<or> c = CHR 0x20 \<or> c = CHR 0xA0)"

definition isDigit :: "char \<Rightarrow> bool" where
  "isDigit c = (c \<in> set ''0123456789'')"

definition decimalValue :: "string \<Rightarrow> int" where
  "decimalValue ds = foldl (\<lambda>a c. 10 * a + (of_char c - 48)) 0 ds"

text \<open>
  The ExponentPart at the head of \<open>r\<close>, as \<open>parseFloat\<close> reads it: \<open>e\<close> or \<open>E\<close>, an
  optional sign, and at least one digit; \<open>0\<close> when \<open>r\<close> does not start with one.
\<close>

definition exponentPart :: "string \<Rightarrow> int" where
  "exponentPart r =
     (case r of
        [] \<Rightarrow> 0
      | c # cs \<Rightarrow>
          if c = CHR ''e'' \<or> c = CHR ''E'' then
            (let neg = (cs \<noteq> [] \<and> hd cs = CHR ''-'');
                 ds = takeWhile isDigit
                        (if cs \<noteq> [] \<and> (hd cs = CHR ''-'' \<or> hd cs = CHR ''+'') then tl cs else cs)
             in if ds = [] then 0 else if neg then - decimalValue ds else decimalValue ds)
          else 0)"

text \<open>
  \<open>Number.parseFloat\<close> on a string: leading white space is skipped, the longest prefix
  that is a StrDecimalLiteral is read (a sign, then \<open>Infinity\<close>, or digits with an
  optional fraction and exponent), and its value is rounded to a Number; \<open>NaN\<close> when
  there is no such prefix.
\<close>

definition parseFloat :: "string \<Rightarrow> number" where
  "parseFloat inputString =
     (let trimmed = dropWhile isWhiteSpace inputString;
          neg = (trimmed \<noteq> [] \<and> hd trimmed = CHR ''-'');
          r0 = (if trimmed \<noteq> [] \<and> (hd trimmed = CHR ''-'' \<or> hd trimmed = CHR ''+'')
                then tl trimmed else trimmed)
      in if prefix ''Infinity'' r0 then (if neg then NInf else PInf)
         else
           (let ds1 = takeWhile isDigit r0;
                r1 = dropWhile isDigit r0;
                hasDot = (r1 \<noteq> [] \<and> hd r1 = CHR ''.'');
                ds2 = (if hasDot then takeWhile isDigit (tl r1) else []);
                r2 = (if hasDot then dropWhile isDigit (tl r1) else r1)
            in if ds1 = [] \<and> ds2 = [] then NaN
               else
                 (let mv = of_int (decimalValue (ds1 @ ds2))
                             * pow10 (exponentPart r2 - int (length ds2))
                  in round_double (if neg then - mv else mv))))"

text \<open>
  The values \<open>JSON.parse\<close> and \<open>response.json()\<close> produce. An object is the list of
  its own properties in insertion order. \<open>undefined\<close> (an absent property, an absent
  argument) is \<open>None\<close> of \<open>json option\<close>.
\<close>

datatype json =
    JNull
  | JBool bool
  | JNum number
  | JStr string
  | JArr "json list"
  | JObj "(string \<times> json) list"

datatype jstype = Tundefined | Tobject | Tboolean | Tnumber | Tstring

text \<open>\<open>typeof v\<close>: \<open>null\<close> and arrays are \<open>"object"\<close>.\<close>

fun typeof :: "json option \<Rightarrow> jstype" where
  "typeof None = Tundefined"
| "typeof (Some JNull) = Tobject"
| "typeof (Some (JBool b)) = Tboolean"
| "typeof (Some (JNum n)) = Tnumber"
| "typeof (Some (JStr s)) = Tstring"
| "typeof (Some (JArr xs)) = Tobject"
| "typeof (Some (JObj kvs)) = Tobject"

text \<open>
  ToBoolean, as \<open>if (v)\<close>, \<open>!v\<close>, \<open>a && b\<close> and \<open>a || b\<close> apply it: \<open>undefined\<close>,
  \<open>null\<close>, \<open>false\<close>, \<open>0\<close>, \<open>NaN\<close> and \<open>""\<close> are falsy, everything else is truthy.
\<close>

fun truthy :: "json option \<Rightarrow> bool" where
  "truthy None = False"
| "truthy (Some JNull) = False"
| "truthy (Some (JBool b)) = b"
| "truthy (Some (JNum n)) = (n \<noteq> Fin 0 \<and> n \<noteq> NaN)"
| "truthy (Some (JStr s)) = (s \<noteq> [])"
| "truthy (Some (JArr xs)) = True"
| "truthy (Some (JObj kvs)) = True"

fun isArray :: "json option \<Rightarrow> bool" where
  "isArray (Some (JArr xs)) = True"
| "isArray v = False"

text \<open>
  \<open>v.k\<close> for a value \<open>v\<close> that is not \<open>null\<close> and a key \<open>k\<close> that no prototype
  defines (\<open>taxes\<close>, \<open>discounts\<close>, \<open>items\<close>, \<open>type\<close>, \<open>amount\<close>, \<open>text\<close>, ...): the own
  property of an object, \<open>undefined\<close> on an array, a string, a number or a boolean.
  On \<open>null\<close> the access throws; the callers below test for \<open>null\<close> where the source
  can reach it.
\<close>

fun getProp :: "json \<Rightarrow> string \<Rightarrow> json option" where
  "getProp (JObj kvs) k = map_of kvs k"
| "getProp v k = None"

text \<open>
  \<open>o.k = v\<close> on an object: an existing property keeps its place, a new one is
  appended. The source assigns only after reading a truthy \<open>o.k\<close>, so \<open>o\<close> is an
  object whenever this is called.
\<close>

fun setProp :: "json \<Rightarrow> string \<Rightarrow> json \<Rightarrow> json" where
  "setProp (JObj kvs) k v = JObj (AList.update k v kvs)"
| "setProp o' k v = o'"

fun keys :: "json \<Rightarrow> string set" where
  "keys (JObj kvs) = fst ` set kvs"
| "keys v = {}"

text \<open>The exceptions the code below can throw.\<close>

datatype error = TypeError | RangeError

text \<open>
  ToString, as a template literal, \<open>String(v)\<close> and \<open>parseFloat\<close> apply it. An array is
  its elements joined by \<open>","\<close>, with \<open>null\<close> as the empty string. An object is
  \<open>"[object Object]"\<close>, unless it has a property \<open>toString\<close> of its own: no JSON value
  is callable, so ToPrimitive finds no method that returns a primitive and throws.
\<close>

fun ToString :: "json \<Rightarrow> error + string"
  and joinElements :: "json list \<Rightarrow> error + string" where
  "ToString JNull = Inr ''null''"
| "ToString (JBool b) = Inr (if b then ''true'' else ''false'')"
| "ToString (JNum n) = Inr (Number_toString n)"
| "ToString (JStr s) = Inr s"
| "ToString (JArr xs) = joinElements xs"
| "ToString (JObj kvs) =
     (if ''toString'' \<in> fst ` set kvs then Inl TypeError else Inr ''[object Object]'')"
| "joinElements [] = Inr []"
| "joinElements (x # xs) =
     (case (if x = JNull then Inr [] else ToString x) of
        Inl e \<Rightarrow> Inl e
      | Inr s \<Rightarrow>
          (if xs = [] then Inr s
           else (case joinElements xs of Inl e \<Rightarrow> Inl e | Inr r \<Rightarrow> Inr (s @ '','' @ r))))"


text \<open>
  \<open>JSON.stringify\<close> without indentation: a string is quoted with the escapes of
  QuoteJSONString, a Number that is not finite is \<open>null\<close>.
\<close>

definition hex4 :: "nat \<Rightarrow> string" where
  "hex4 n =
     [CHR ''0'', CHR ''0'', ''0123456789abcdef'' ! (n div 16), ''0123456789abcdef'' ! (n mod 16)]"

definition quoteChar :: "char \<Rightarrow> string" where
  "quoteChar c =
     (if c = CHR 0x22 then [CHR 0x5C, CHR 0x22]
      else if c = CHR 0x5C then [CHR 0x5C, CHR 0x5C]
      else if c = CHR 0x08 then [CHR 0x5C, CHR ''b'']
      else if c = CHR 0x0C then [CHR 0x5C, CHR ''f'']
      else if c = CHR 0x0A then [CHR 0x5C, CHR ''n'']
      else if c = CHR 0x0D then [CHR 0x5C, CHR ''r'']
      else if c = CHR 0x09 then [CHR 0x5C, CHR ''t'']
      else if (of_char c :: nat) < 32 then [CHR 0x5C, CHR ''u''] @ hex4 (of_char c)
      else [c])"

definition QuoteJSONString :: "string \<Rightarrow> string" where
  "QuoteJSONString s = [CHR 0x22] @ concat (map quoteChar s) @ [CHR 0x22]"

fun JSON_stringify :: "json \<Rightarrow> string"
  and stringifyElements :: "json list \<Rightarrow> string"
  and stringifyMembers :: "(string \<times> json) list \<Rightarrow> string" where
  "JSON_stringify JNull = ''null''"
| "JSON_stringify (JBool b) = (if b then ''true'' else ''false'')"
| "JSON_stringify (JNum n) = (case n of Fin q \<Rightarrow> Number_toString n | _ \<Rightarrow> ''null'')"
| "JSON_stringify (JStr s) = QuoteJSONString s"
| "JSON_stringify (JArr xs) = ''['' @ stringifyElements xs @ '']''"
| "JSON_stringify (JObj kvs) = ''{'' @ stringifyMembers kvs @ ''}''"
| "stringifyElements [] = []"
| "stringifyElements (x # xs) =
     JSON_stringify x @ (if xs = [] then [] else '','' @ stringifyElements xs)"
| "stringifyMembers [] = []"
| "stringifyMembers (kv # kvs) =
     QuoteJSONString (fst kv) @ '':'' @ JSON_stringify (snd kv) @
     (if kvs = [] then [] else '','' @ stringifyMembers kvs)"

section \<open>The response normalizer (route.ts, lines 111-156)\<close>

subsection \<open>Shape coercion of the parsed completion (lines 123-146)\<close>

text \<open>
  Lines 125-131, and again 134-140 with \<open>discounts\<close>:
  \<^verbatim>\<open>if (parsedData.taxes && !Array.isArray(parsedData.taxes)) {
    if (typeof parsedData.taxes === "object") { parsedData.taxes = [parsedData.taxes] }
    else { parsedData.taxes = [] } }\<close>
\<close>

definition ensureChargeArray :: "string \<Rightarrow> json \<Rightarrow> json" where
  "ensureChargeArray field parsedData =
     (case getProp parsedData field of
        None \<Rightarrow> parsedData
      | Some v \<Rightarrow>
          if truthy (Some v) \<and> \<not> isArray (Some v) then
            (if typeof (Some v) = Tobject
             then setProp parsedData field (JArr [v])
             else setProp parsedData field (JArr []))
          else parsedData)"

text \<open>
  Lines 143-145:
  \<^verbatim>\<open>if (parsedData.items && !Array.isArray(parsedData.items)) {
    parsedData.items = [parsedData.items] }\<close>
\<close>

definition ensureItemsArray :: "json \<Rightarrow> json" where
  "ensureItemsArray parsedData =
     (case getProp parsedData ''items'' of
        None \<Rightarrow> parsedData
      | Some v \<Rightarrow>
          if truthy (Some v) \<and> \<not> isArray (Some v)
          then setProp parsedData ''items'' (JArr [v])
          else parsedData)"

text \<open>Lines 123-146: \<open>if (parsedData) { taxes; discounts; items }\<close>.\<close>

definition processParsed :: "json \<Rightarrow> json" where
  "processParsed parsedData =
     (if truthy (Some parsedData)
      then ensureItemsArray (ensureChargeArray ''discounts'' (ensureChargeArray ''taxes'' parsedData))
      else parsedData)"

subsection \<open>Fence stripping (lines 115-118)\<close>

text \<open>
  \<open>s.replace(/pat/g, "")\<close> for a literal pattern: the matches are found from left to
  right and do not overlap; the search resumes after each match, and what a removal
  brings together is not searched again.
\<close>

function remove_g :: "string \<Rightarrow> string \<Rightarrow> string" where
  "remove_g pat [] = []"
| "remove_g pat (c # cs) =
     (if pat \<noteq> [] \<and> prefix pat (c # cs)
      then remove_g pat (drop (length pat) (c # cs))
      else c # remove_g pat cs)"
  by pat_completeness auto
termination
  by (relation "measure (\<lambda>(pat, s). length s)") auto

text \<open>\<open>s.trim()\<close>.\<close>

definition trim :: "string \<Rightarrow> string" where
  "trim s = rev (dropWhile isWhiteSpace (rev (dropWhile isWhiteSpace s)))"

definition cleanedText :: "string \<Rightarrow> string" where
  "cleanedText generatedText = trim (remove_g ''```'' (remove_g ''```json'' generatedText))"

subsection \<open>Parse, coerce or degrade (lines 112-156)\<close>

text \<open>Lines 150-153: the object of the \<open>catch\<close> branch.\<close>

definition degraded :: "json \<Rightarrow> json" where
  "degraded generatedText =
     JObj [(''raw'', generatedText), (''error'', JStr ''Could not parse structured data'')]"

text \<open>
  The value handed to \<open>NextResponse.json\<close> for a completion \<open>generatedText\<close>.
  \<open>JSON.parse\<close> is the platform's; it is a parameter, \<open>None\<close> where it throws
  SyntaxError. \<open>generatedText\<close> is \<open>data...text || ""\<close>, so any truthy JSON value can
  stand there: on one that is not a string \<open>generatedText.replace\<close> is not a function,
  and the TypeError is caught by the same \<open>catch\<close>.
\<close>

definition normalize :: "(string \<Rightarrow> json option) \<Rightarrow> json \<Rightarrow> json" where
  "normalize JSON_parse generatedText =
     (case generatedText of
        JStr t \<Rightarrow>
          (case JSON_parse (cleanedText t) of
             None \<Rightarrow> degraded generatedText
           | Some parsedData \<Rightarrow> processParsed parsedData)
      | _ \<Rightarrow> degraded generatedText)"

section \<open>The display helpers (receipt-scanner.tsx, lines 38-105)\<close>

subsection \<open>formatValue (lines 39-83)\<close>






subsection \<open>calculateTotalDiscounts (lines 86-105)\<close>




subsection \<open>sumCharges, as the specification words it\<close>



section \<open>The extraction endpoint (route.ts, POST)\<close>









section \<open>Notions the properties below are stated with\<close>

text \<open>A parsed completion in canonical form: taxes, discounts and items are arrays when present.\<close>

definition canonical :: "json \<Rightarrow> bool" where
  "canonical x =
     ((getProp x ''taxes'' = None \<or> isArray (getProp x ''taxes''))
      \<and> (getProp x ''discounts'' = None \<or> isArray (getProp x ''discounts''))
      \<and> (getProp x ''items'' = None \<or> isArray (getProp x ''items'')))"

text \<open>The fields of a StructuredReceipt other than \<open>raw\<close> and \<open>error\<close>.\<close>

definition structuredFields :: "string set" where
  "structuredFields =
     {''merchant'', ''date'', ''total'', ''items'', ''paymentMethod'', ''taxes'', ''discounts''}"

text \<open>
  A record that is not partially degraded: \<open>raw\<close> and \<open>error\<close> and no structured field,
  or structured fields only.
\<close>

definition notPartiallyDegraded :: "json \<Rightarrow> bool" where
  "notPartiallyDegraded r =
     ((''raw'' \<in> keys r \<and> ''error'' \<in> keys r \<and> keys r \<inter> structuredFields = {})
      \<or> (''raw'' \<notin> keys r \<and> ''error'' \<notin> keys r \<and> keys r \<subseteq> structuredFields))"

text \<open>
  A completion \<open>t\<close> wrapped in a fenced code block: the opening fence before it, the
  closing fence after it, and white space \<open>w0\<close>, \<open>w1\<close>, \<open>w2\<close>, \<open>w3\<close> around the fences.
\<close>

definition fenced :: "string \<Rightarrow> string \<Rightarrow> string \<Rightarrow> string \<Rightarrow> string \<Rightarrow> string" where
  "fenced w0 w1 t w2 w3 = w0 @ ''```json'' @ w1 @ t @ w2 @ ''```'' @ w3"





text \<open>
  An amount that is a number or a text, and how it is printed: a number with
  \<open>toFixed(2)\<close>, a text as it is. An entry with a non-empty \<open>type\<close> and such an amount
  is printed as \<open>type: amount\<close>; \<open>joinWith\<close> puts a separator between strings.
\<close>

definition moneyAmount :: "json \<Rightarrow> bool" where
  "moneyAmount a = (case a of JNum n \<Rightarrow> True | JStr s \<Rightarrow> True | _ \<Rightarrow> False)"





text \<open>
  The theorems below hold for every \<open>JSON.parse\<close>. Their examples need one that can be
  evaluated: this is the table of \<open>JSON.parse\<close> on the JSON texts the examples use, each
  with the value it denotes; the other texts of the examples are not JSON, and the
  table has no entry for them (\<open>None\<close>, SyntaxError).
\<close>

definition JSON_parse_examples :: "string \<Rightarrow> json option" where
  "JSON_parse_examples =
     map_of
       [(''{\"taxes\":3.5}'', JObj [(''taxes'', JNum (Fin (7 / 2)))]),
        (''{\"raw\":\"x\",\"merchant\":\"M\"}'',
         JObj [(''raw'', JStr ''x''), (''merchant'', JStr ''M'')]),
        (''{\"merchant\":\"M\",\"items\":\"Milk\"}'',
         JObj [(''merchant'', JStr ''M''), (''items'', JStr ''Milk'')])]"

section \<open>The Number model on known values\<close>

text \<open>
  The Number nearest to 0.1; the sum 0.1 + 0.2, which is not the Number nearest to 0.3
  and prints as 0.30000000000000004; ties going to the even significand above
  \<open>2 ^ 53\<close>; how Numbers print, and how \<open>parseFloat\<close> reads.
\<close>

lemma number_tenth: "round_double (1 / 10) = Fin (3602879701896397 / 36028797018963968)"
  by code_simp

lemma number_tenth_plus_fifth:
  "js_add (round_double (1 / 10)) (round_double (2 / 10))
     = Fin (5404319552844596 / 18014398509481984)
   \<and> round_double (3 / 10) = Fin (5404319552844595 / 18014398509481984)
   \<and> Number_toString (js_add (round_double (1 / 10)) (round_double (2 / 10)))
       = ''0.30000000000000004''"
  by (intro conjI) code_simp+

lemma number_ties_to_even:
  "round_double 9007199254740993 = Fin 9007199254740992
   \<and> round_double 9007199254740995 = Fin 9007199254740996
   \<and> js_add (Fin 9007199254740992) (Fin 1) = Fin 9007199254740992"
  by (intro conjI) code_simp+

lemma number_printing:
  "Number_toString (round_double (345 / 100)) = ''3.45''
   \<and> Number_toString (Fin 100) = ''100''
   \<and> Number_toString (Fin (10 ^ 21)) = ''1e+21''
   \<and> Number_toString (round_double (1 / 10 ^ 7)) = ''1e-7''
   \<and> toFixed2 (round_double (1005 / 1000)) = ''1.00''
   \<and> toFixed2 (Fin (1 / 8)) = ''0.13''
   \<and> toFixed2 (Fin (- 5 / 2)) = ''-2.50''"
  by (intro conjI) code_simp+

lemma parseFloat_values:
  "parseFloat ''3.45'' = round_double (345 / 100)
   \<and> parseFloat '' 12abc'' = Fin 12
   \<and> parseFloat ''$5'' = NaN
   \<and> parseFloat ''-.5e1'' = Fin (- 5)
   \<and> parseFloat ''Infinity'' = PInf"
  by (intro conjI) code_simp+

section \<open>Properties of the normalizer\<close>

subsection \<open>Properties and keys\<close>

lemma ensureChargeArray_if:
  "ensureChargeArray f x =
     (if truthy (getProp x f) \<and> \<not> isArray (getProp x f) then
        (if typeof (getProp x f) = Tobject
         then setProp x f (JArr [the (getProp x f)])
         else setProp x f (JArr []))
      else x)"
  by (simp add: ensureChargeArray_def split: option.splits)

lemma ensureItemsArray_if:
  "ensureItemsArray x =
     (if truthy (getProp x ''items'') \<and> \<not> isArray (getProp x ''items'')
      then setProp x ''items'' (JArr [the (getProp x ''items'')])
      else x)"
  by (simp add: ensureItemsArray_def split: option.splits)

lemma settled_ensureChargeArray:
  "\<not> truthy (getProp (ensureChargeArray f x) f) \<or> isArray (getProp (ensureChargeArray f x) f)"
  by (cases x) (auto simp: ensureChargeArray_if update_conv')

lemma settled_ensureItemsArray:
  "\<not> truthy (getProp (ensureItemsArray x) ''items'') \<or> isArray (getProp (ensureItemsArray x) ''items'')"
  by (cases x) (auto simp: ensureItemsArray_if update_conv')

lemma ensureChargeArray_id:
  "\<not> truthy (getProp x f) \<or> isArray (getProp x f) \<Longrightarrow> ensureChargeArray f x = x"
  by (auto simp: ensureChargeArray_if)

lemma ensureItemsArray_id:
  "\<not> truthy (getProp x ''items'') \<or> isArray (getProp x ''items'') \<Longrightarrow> ensureItemsArray x = x"
  by (auto simp: ensureItemsArray_if)

lemma ensureChargeArray_other: "g \<noteq> f \<Longrightarrow> getProp (ensureChargeArray f x) g = getProp x g"
  by (cases x) (auto simp: ensureChargeArray_if update_conv')

lemma ensureItemsArray_other: "g \<noteq> ''items'' \<Longrightarrow> getProp (ensureItemsArray x) g = getProp x g"
  by (cases x) (auto simp: ensureItemsArray_if update_conv')

lemma truthy_ensureChargeArray: "truthy (Some (ensureChargeArray f x)) = truthy (Some x)"
  by (cases x) (auto simp: ensureChargeArray_if)

lemma truthy_ensureItemsArray: "truthy (Some (ensureItemsArray x)) = truthy (Some x)"
  by (cases x) (auto simp: ensureItemsArray_if)

lemma keys_setProp_present:
  "truthy (getProp x f) \<Longrightarrow> keys (setProp x f v) = keys x"
proof (cases x)
  case (JObj kvs)
  assume "truthy (getProp x f)"
  with JObj have "map_of kvs f \<noteq> None" by (cases "map_of kvs f") simp_all
  then have "f \<in> fst ` set kvs" by (simp add: map_of_eq_None_iff)
  with JObj show ?thesis by (auto simp: dom_update)
qed simp_all

lemma keys_ensureChargeArray: "keys (ensureChargeArray f x) = keys x"
  by (simp add: ensureChargeArray_if keys_setProp_present)

lemma keys_ensureItemsArray: "keys (ensureItemsArray x) = keys x"
  by (simp add: ensureItemsArray_if keys_setProp_present)

lemma keys_processParsed: "keys (processParsed x) = keys x"
  by (simp add: processParsed_def keys_ensureChargeArray keys_ensureItemsArray)

lemma processParsed_idem: "processParsed (processParsed x) = processParsed x"
proof (cases "truthy (Some x)")
  case False
  then show ?thesis by (simp add: processParsed_def)
next
  case True
  let ?t = "ensureChargeArray ''taxes'' x"
  let ?d = "ensureChargeArray ''discounts'' ?t"
  let ?i = "ensureItemsArray ?d"
  have r: "processParsed x = ?i" using True by (simp add: processParsed_def)
  have tr: "truthy (Some ?i)"
    using True by (simp add: truthy_ensureItemsArray truthy_ensureChargeArray)
  have st: "\<not> truthy (getProp ?i ''taxes'') \<or> isArray (getProp ?i ''taxes'')"
    using settled_ensureChargeArray [of "''taxes''" x]
    by (simp add: ensureItemsArray_other ensureChargeArray_other)
  have sd: "\<not> truthy (getProp ?i ''discounts'') \<or> isArray (getProp ?i ''discounts'')"
    using settled_ensureChargeArray [of "''discounts''" ?t]
    by (simp add: ensureItemsArray_other)
  have si: "\<not> truthy (getProp ?i ''items'') \<or> isArray (getProp ?i ''items'')"
    by (rule settled_ensureItemsArray)
  have "processParsed ?i = ?i"
    using tr st sd si
    by (simp add: processParsed_def ensureChargeArray_id ensureItemsArray_id)
  with r show ?thesis by simp
qed

lemma processParsed_canonical: "canonical x \<Longrightarrow> processParsed x = x"
  by (auto simp: canonical_def processParsed_def ensureChargeArray_id ensureItemsArray_id)

lemma ensureChargeArray_field:
  "getProp (ensureChargeArray f x) f =
     (case getProp x f of
        None \<Rightarrow> None
      | Some v \<Rightarrow>
          if \<not> truthy (Some v) then Some v
          else (case v of JArr xs \<Rightarrow> Some v | JObj kvs \<Rightarrow> Some (JArr [v]) | _ \<Rightarrow> Some (JArr [])))"
proof (cases x)
  case (JObj kvs)
  show ?thesis
  proof (cases "map_of kvs f")
    case None
    with JObj show ?thesis by (simp add: ensureChargeArray_if)
  next
    case (Some v)
    with JObj show ?thesis
      by (cases v) (simp_all add: ensureChargeArray_if update_conv')
  qed
qed (simp_all add: ensureChargeArray_if)

lemma processParsed_charge_field:
  assumes "f = ''taxes'' \<or> f = ''discounts''"
  shows "getProp (processParsed x) f = getProp (ensureChargeArray f x) f"
proof (cases "truthy (Some x)")
  case False
  then have "getProp x f = None" by (cases x) simp_all
  with False show ?thesis by (simp add: processParsed_def ensureChargeArray_if)
next
  case True
  from assms show ?thesis
  proof
    assume "f = ''taxes''"
    with True show ?thesis
      by (simp add: processParsed_def ensureItemsArray_other ensureChargeArray_other)
  next
    assume f: "f = ''discounts''"
    have "getProp (ensureChargeArray ''discounts'' (ensureChargeArray ''taxes'' x)) ''discounts''
          = getProp (ensureChargeArray ''discounts'' x) ''discounts''"
      by (simp add: ensureChargeArray_field ensureChargeArray_other)
    with True f show ?thesis
      by (simp add: processParsed_def ensureItemsArray_other)
  qed
qed


subsection \<open>Idempotence of the coercion\<close>

text \<open>
  C10. The shape coercion is idempotent: coercing the result of a coercion gives that
  result again, for every parsed value; and a value already in canonical form (taxes,
  discounts and items arrays when present) passes through unchanged.
\<close>

theorem coercion_idempotent:
  "processParsed (processParsed x) = processParsed x
   \<and> (canonical x \<longrightarrow> processParsed x = x)"
  using processParsed_idem processParsed_canonical by blast

text \<open>
  A completion with a single tax object and a single item: one coercion wraps both, a
  second one changes nothing; and the wrapped form is canonical.
\<close>

theorem coercion_idempotent_witness:
  "processParsed
     (JObj [(''taxes'', JObj [(''type'', JStr ''VAT''), (''amount'', JNum (Fin 2))]),
            (''items'', JStr ''Milk'')])
   = JObj [(''taxes'', JArr [JObj [(''type'', JStr ''VAT''), (''amount'', JNum (Fin 2))]]),
           (''items'', JArr [JStr ''Milk''])]
   \<and> canonical
         (JObj [(''taxes'', JArr [JObj [(''type'', JStr ''VAT''), (''amount'', JNum (Fin 2))]]),
                (''items'', JArr [JStr ''Milk''])])
   \<and> processParsed
         (JObj [(''taxes'', JArr [JObj [(''type'', JStr ''VAT''), (''amount'', JNum (Fin 2))]]),
                (''items'', JArr [JStr ''Milk''])])
       = JObj [(''taxes'', JArr [JObj [(''type'', JStr ''VAT''), (''amount'', JNum (Fin 2))]]),
               (''items'', JArr [JStr ''Milk''])]"
proof -
  let ?x = "JObj [(''taxes'', JObj [(''type'', JStr ''VAT''), (''amount'', JNum (Fin 2))]),
                  (''items'', JStr ''Milk'')]"
  let ?y = "JObj [(''taxes'', JArr [JObj [(''type'', JStr ''VAT''), (''amount'', JNum (Fin 2))]]),
                  (''items'', JArr [JStr ''Milk''])]"
  have 1: "processParsed ?x = ?y"
    by (simp add: processParsed_def ensureChargeArray_def ensureItemsArray_def)
  have 2: "canonical ?y" by (simp add: canonical_def)
  from coercion_idempotent [of ?x] have "processParsed (processParsed ?x) = processParsed ?x"
    by (rule conjunct1)
  then have 3: "processParsed ?y = ?y" by (simp only: 1)
  from 1 2 3 show ?thesis by blast
qed

subsection \<open>The coercion of taxes and discounts\<close>

text \<open>
  C1, as amended. For a parsed completion object and \<open>f\<close> one of \<open>taxes\<close> and
  \<open>discounts\<close>: an absent field stays absent; a falsy value (\<open>null\<close>, \<open>false\<close>, \<open>0\<close>,
  the empty string) is left unchanged; an array is left unchanged; any other object is
  replaced by the one-element array that holds it; any other truthy value (a non-zero
  number, a non-empty string, \<open>true\<close>) is replaced by the empty array.
\<close>

theorem charges_coercion:
  "f = ''taxes'' \<or> f = ''discounts'' \<Longrightarrow>
   getProp (processParsed (JObj kvs)) f =
     (case getProp (JObj kvs) f of
        None \<Rightarrow> None
      | Some v \<Rightarrow>
          if \<not> truthy (Some v) then Some v
          else (case v of JArr xs \<Rightarrow> Some v | JObj m \<Rightarrow> Some (JArr [v]) | _ \<Rightarrow> Some (JArr [])))"
  by (simp only: processParsed_charge_field ensureChargeArray_field)

text \<open>The single object \<open>{type: "Sales Tax", amount: 3.45}\<close> is wrapped.\<close>

theorem charges_coercion_witness:
  "getProp
     (processParsed
        (JObj [(''taxes'',
                JObj [(''type'', JStr ''Sales Tax''), (''amount'', JNum (round_double (345 / 100)))])]))
     ''taxes''
   = Some (JArr [JObj [(''type'', JStr ''Sales Tax''), (''amount'', JNum (round_double (345 / 100)))]])"
  using charges_coercion
    [of "''taxes''"
        "[(''taxes'',
           JObj [(''type'', JStr ''Sales Tax''), (''amount'', JNum (round_double (345 / 100)))])]"]
  by simp

text \<open>
  The claim as stated fails: in \<open>{"taxes": 0}\<close> the field is present and neither an
  object nor an array, and it is left as \<open>0\<close>, not replaced by the empty array.
\<close>

theorem charges_coercion_counterexample:
  "getProp (processParsed (JObj [(''taxes'', JNum (Fin 0))])) ''taxes'' = Some (JNum (Fin 0))
   \<and> getProp (processParsed (JObj [(''taxes'', JNum (Fin 0))])) ''taxes'' \<noteq> Some (JArr [])"
  by (simp add: processParsed_def ensureChargeArray_if ensureItemsArray_if)

subsection \<open>A bare number in taxes or discounts\<close>

text \<open>
  C4, as amended. A parsed completion object whose taxes (or discounts) field is a bare
  amount with no type, a plain number or a plain text, is accepted: the normalizer
  returns the coerced object, not the degraded record. The field of the result is the
  empty array when the amount is a number other than zero or a non-empty text, and the
  amount itself when it is zero or the empty text.
\<close>

theorem bare_number_charge:
  "JSON_parse (cleanedText t) = Some (JObj kvs) \<Longrightarrow>
   f = ''taxes'' \<or> f = ''discounts'' \<Longrightarrow>
   getProp (JObj kvs) f = Some v \<Longrightarrow>
   moneyAmount v \<Longrightarrow>
   normalize JSON_parse (JStr t) = processParsed (JObj kvs)
   \<and> getProp (normalize JSON_parse (JStr t)) f = Some (if truthy (Some v) then JArr [] else v)"
  by (cases v)
     (auto simp: normalize_def processParsed_charge_field ensureChargeArray_field moneyAmount_def)

theorem bare_number_charge_witness:
  "normalize JSON_parse_examples (JStr ''{\"taxes\":3.5}'')
     = processParsed (JObj [(''taxes'', JNum (Fin (7 / 2)))])
   \<and> getProp (normalize JSON_parse_examples (JStr ''{\"taxes\":3.5}'')) ''taxes'' = Some (JArr [])"
proof -
  have c: "cleanedText ''{\"taxes\":3.5}'' = ''{\"taxes\":3.5}''"
    by (simp add: cleanedText_def trim_def isWhiteSpace_def)
  have p: "JSON_parse_examples (cleanedText ''{\"taxes\":3.5}'')
           = Some (JObj [(''taxes'', JNum (Fin (7 / 2)))])"
    by (simp only: c) (simp add: JSON_parse_examples_def)
  have f: "''taxes'' = ''taxes'' \<or> ''taxes'' = ''discounts''" by simp
  have g: "getProp (JObj [(''taxes'', JNum (Fin (7 / 2)))]) ''taxes'' = Some (JNum (Fin (7 / 2)))"
    by simp
  have m: "moneyAmount (JNum (Fin (7 / 2)))" by (simp add: moneyAmount_def)
  note r = bare_number_charge
      [of JSON_parse_examples "''{\"taxes\":3.5}''" "[(''taxes'', JNum (Fin (7 / 2)))]"
          "''taxes''" "JNum (Fin (7 / 2))", OF p f g m]
  from r have a: "normalize JSON_parse_examples (JStr ''{\"taxes\":3.5}'')
                  = processParsed (JObj [(''taxes'', JNum (Fin (7 / 2)))])"
    by (rule conjunct1)
  from r [THEN conjunct2]
  have b: "getProp (normalize JSON_parse_examples (JStr ''{\"taxes\":3.5}'')) ''taxes''
           = Some (JArr [])"
    by simp
  from a b show ?thesis by (rule conjI)
qed

text \<open>
  The claim as stated fails: the taxes field \<open>3.5\<close> of a parsed completion is replaced
  by the empty array, and the amount is lost.
\<close>

theorem bare_number_charge_counterexample:
  "getProp (processParsed (JObj [(''taxes'', JNum (Fin (7 / 2)))])) ''taxes'' = Some (JArr [])
   \<and> getProp (processParsed (JObj [(''taxes'', JNum (Fin (7 / 2)))])) ''taxes''
       \<noteq> Some (JNum (Fin (7 / 2)))"
  by (simp add: processParsed_def ensureChargeArray_if ensureItemsArray_if)

subsection \<open>The degraded record\<close>

text \<open>
  C2. For every completion text whose cleaned form \<open>JSON.parse\<close> rejects, the normalizer
  returns exactly the record with \<open>raw\<close>, the original text (not the cleaned one), and
  \<open>error\<close>, "Could not parse structured data". The record has no other field, and the
  SyntaxError does not leave the normalizer: the result is a value.
\<close>

theorem normalize_unparsable:
  "JSON_parse (cleanedText t) = None \<Longrightarrow>
   normalize JSON_parse (JStr t)
     = JObj [(''raw'', JStr t), (''error'', JStr ''Could not parse structured data'')]"
  by (simp add: normalize_def degraded_def)

theorem normalize_unparsable_witness:
  "normalize JSON_parse_examples (JStr ''Sorry, I cannot help.'')
     = JObj [(''raw'', JStr ''Sorry, I cannot help.''),
             (''error'', JStr ''Could not parse structured data'')]"
proof -
  have "JSON_parse_examples (cleanedText ''Sorry, I cannot help.'') = None"
    by (simp add: cleanedText_def trim_def isWhiteSpace_def JSON_parse_examples_def)
  then show ?thesis by (rule normalize_unparsable)
qed

subsection \<open>The two outcomes\<close>

text \<open>
  C3, as amended. For every completion text, the fields of the record returned are
  exactly \<open>raw\<close> and \<open>error\<close> when the cleaned text does not parse, and exactly the
  fields of the parsed value when it does: the normalizer adds neither \<open>raw\<close> nor
  \<open>error\<close> to a parsed completion, and no other field to a degraded record. Whatever
  fields the parsed completion has itself, it keeps.
\<close>

theorem normalize_fields:
  "keys (normalize JSON_parse (JStr t))
     = (case JSON_parse (cleanedText t) of None \<Rightarrow> {''raw'', ''error''} | Some x \<Rightarrow> keys x)"
  by (cases "JSON_parse (cleanedText t)")
     (auto simp: normalize_def degraded_def keys_processParsed)

theorem normalize_fields_witness:
  "keys (normalize JSON_parse_examples (JStr ''{\"merchant\":\"M\",\"items\":\"Milk\"}''))
     = {''merchant'', ''items''}"
proof -
  have c: "cleanedText ''{\"merchant\":\"M\",\"items\":\"Milk\"}''
           = ''{\"merchant\":\"M\",\"items\":\"Milk\"}''"
    by (simp add: cleanedText_def trim_def isWhiteSpace_def)
  show ?thesis
    using normalize_fields [of JSON_parse_examples "''{\"merchant\":\"M\",\"items\":\"Milk\"}''"]
    by (simp only: c) (simp add: JSON_parse_examples_def)
qed

text \<open>
  The claim as stated fails: the completion \<open>{"raw":"x","merchant":"M"}\<close> is valid
  JSON, and the record returned for it has \<open>raw\<close> without \<open>error\<close>, beside a
  structured field.
\<close>

theorem normalize_fields_counterexample:
  "\<not> notPartiallyDegraded
       (normalize JSON_parse_examples (JStr ''{\"raw\":\"x\",\"merchant\":\"M\"}''))"
proof -
  have c: "cleanedText ''{\"raw\":\"x\",\"merchant\":\"M\"}''
           = ''{\"raw\":\"x\",\"merchant\":\"M\"}''"
    by (simp add: cleanedText_def trim_def isWhiteSpace_def)
  have "normalize JSON_parse_examples (JStr ''{\"raw\":\"x\",\"merchant\":\"M\"}'')
        = JObj [(''raw'', JStr ''x''), (''merchant'', JStr ''M'')]"
    unfolding normalize_def json.case c
    by (simp add: JSON_parse_examples_def processParsed_def ensureChargeArray_if
        ensureItemsArray_if)
  then show ?thesis
    by (simp add: notPartiallyDegraded_def structuredFields_def)
qed

subsection \<open>Empty text is rejected before any call\<close>

lemma dropWhile_all: "\<forall>c\<in>set t. P c \<Longrightarrow> dropWhile P t = []"
  by (simp add: dropWhile_eq_Nil_conv)


lemma trim_padded:
  assumes "\<forall>c\<in>set a. isWhiteSpace c" and "\<forall>c\<in>set b. isWhiteSpace c"
  shows "trim (a @ v @ b) = trim v"
proof -
  have "dropWhile isWhiteSpace (a @ v @ b) = dropWhile isWhiteSpace (v @ b)"
    using assms(1) by (intro dropWhile_append2) auto
  moreover have "dropWhile isWhiteSpace (rev (dropWhile isWhiteSpace (v @ b)))
        = dropWhile isWhiteSpace (rev (dropWhile isWhiteSpace v))"
  proof (cases "\<forall>c\<in>set v. isWhiteSpace c")
    case True
    then have e1: "dropWhile isWhiteSpace (v @ b) = []"
      using assms(2) by (intro dropWhile_all) auto
    have e2: "dropWhile isWhiteSpace v = []"
      using True by (rule dropWhile_all)
    show ?thesis by (simp only: e1 e2)
  next
    case False
    then obtain x where "x \<in> set v" "\<not> isWhiteSpace x" by blast
    then have e1: "dropWhile isWhiteSpace (v @ b) = dropWhile isWhiteSpace v @ b"
      by (simp add: dropWhile_append1)
    have e2: "dropWhile isWhiteSpace (rev b @ rev (dropWhile isWhiteSpace v))
              = dropWhile isWhiteSpace (rev (dropWhile isWhiteSpace v))"
      using assms(2) by (intro dropWhile_append2) auto
    show ?thesis by (simp only: e1 rev_append e2)
  qed
  ultimately show ?thesis by (simp add: trim_def)
qed





subsection \<open>Fenced completions\<close>

declare remove_g.simps [simp del]

lemma remove_g_match:
  "pat \<noteq> [] \<Longrightarrow> prefix pat s \<Longrightarrow> remove_g pat s = remove_g pat (drop (length pat) s)"
  by (cases s) (simp_all add: remove_g.simps)

lemma remove_g_nomatch:
  "\<not> prefix pat (c # cs) \<Longrightarrow> remove_g pat (c # cs) = c # remove_g pat cs"
  by (simp add: remove_g.simps)

lemma fence_not_at_whitespace:
  "isWhiteSpace c \<Longrightarrow> pat = ''```json'' \<or> pat = ''```'' \<Longrightarrow> \<not> prefix pat (c # s)"
  by (auto simp: isWhiteSpace_def)

lemma remove_g_skip_whitespace:
  assumes "\<forall>c\<in>set w. isWhiteSpace c" and "pat = ''```json'' \<or> pat = ''```''"
  shows "remove_g pat (w @ s) = w @ remove_g pat s"
  using assms(1)
proof (induction w)
  case Nil
  show ?case by simp
next
  case (Cons c w)
  then have "\<not> prefix pat (c # w @ s)"
    using assms(2) by (intro fence_not_at_whitespace) simp_all
  with Cons show ?case by (simp add: remove_g_nomatch)
qed

lemma remove_g_whitespace:
  assumes "\<forall>c\<in>set w. isWhiteSpace c" and "pat = ''```json'' \<or> pat = ''```''"
  shows "remove_g pat w = w"
  using remove_g_skip_whitespace [OF assms, of "[]"] by (simp add: remove_g.simps)

lemma tail_of_split:
  assumes "xs = s @ us"
  shows "us = drop (length s) xs"
  using assms by simp

lemma json_fence_tails:
  assumes "''```json'' = s @ us" and "s \<noteq> []" and "us \<noteq> []"
  shows "us \<in> {''``json'', ''`json'', ''json'', ''son'', ''on'', ''n''}"
proof -
  have l: "length s + length us = 7"
    using arg_cong [OF assms(1), of length] by simp
  have u: "us = drop (length s) ''```json''" using assms(1) by (rule tail_of_split)
  have "0 < length s" and "0 < length us" using assms(2,3) by simp_all
  with l have "length s = 1 \<or> length s = 2 \<or> length s = 3
      \<or> length s = 4 \<or> length s = 5 \<or> length s = 6"
    by arith
  then show ?thesis
    using u by (elim disjE) simp_all
qed

lemma fence_tails:
  assumes "''```'' = s @ us" and "s \<noteq> []" and "us \<noteq> []"
  shows "us \<in> {''``'', ''`''}"
proof -
  have l: "length s + length us = 3"
    using arg_cong [OF assms(1), of length] by simp
  have u: "us = drop (length s) ''```''" using assms(1) by (rule tail_of_split)
  have "0 < length s" and "0 < length us" using assms(2,3) by simp_all
  with l have "length s = 1 \<or> length s = 2" by arith
  then show ?thesis
    using u by (elim disjE) simp_all
qed

lemma prefix_straddle:
  assumes "prefix pat (s @ y)" and "\<not> prefix pat s"
  obtains us where "pat = s @ us" and "us \<noteq> []" and "prefix us y"
proof -
  from assms obtain us where us: "pat = s @ us" "prefix us y"
    by (auto simp: prefix_append)
  with assms(2) have "us \<noteq> []" by auto
  with us that show thesis by blast
qed

lemma drop_match_append:
  assumes "prefix pat s"
  shows "drop (length pat) (s @ y) = drop (length pat) s @ y"
  using prefix_length_le [OF assms] by simp

text \<open>
  Removal distributes over \<open>t @ y\<close> when no match can start in \<open>t\<close> and end in \<open>y\<close>.
\<close>

lemma remove_g_append:
  assumes "pat \<noteq> []"
    and "\<And>s. s \<noteq> [] \<Longrightarrow> \<not> prefix pat s \<Longrightarrow> \<not> prefix pat (s @ y)"
  shows "remove_g pat (t @ y) = remove_g pat t @ remove_g pat y"
  using assms
proof (induction pat t rule: remove_g.induct)
  case (1 pat)
  show ?case by (simp add: remove_g.simps(1))
next
  case (2 pat c cs)
  note ne = "2.prems"(1) and ns = "2.prems"(2)
  show ?case
  proof (cases "prefix pat (c # cs)")
    case True
    then have p: "prefix pat ((c # cs) @ y)" by (rule prefix_prefix)
    have "remove_g pat ((c # cs) @ y) = remove_g pat (drop (length pat) ((c # cs) @ y))"
      using ne p by (rule remove_g_match)
    also have "\<dots> = remove_g pat (drop (length pat) (c # cs) @ y)"
      by (simp only: drop_match_append [OF True])
    also have "\<dots> = remove_g pat (drop (length pat) (c # cs)) @ remove_g pat y"
      using "2.IH"(1) ne True ns by blast
    also have "remove_g pat (drop (length pat) (c # cs)) = remove_g pat (c # cs)"
      using remove_g_match [OF ne True] by simp
    finally show ?thesis .
  next
    case False
    then have "\<not> prefix pat ((c # cs) @ y)" by (intro ns) simp_all
    then have "remove_g pat ((c # cs) @ y) = c # remove_g pat (cs @ y)"
      by (simp add: remove_g_nomatch)
    also have "\<dots> = c # (remove_g pat cs @ remove_g pat y)"
      using "2.IH"(2) False ne ns by blast
    also have "\<dots> = remove_g pat (c # cs) @ remove_g pat y"
      using False by (simp add: remove_g_nomatch)
    finally show ?thesis .
  qed
qed

lemma no_straddle_json:
  assumes w2: "\<forall>c\<in>set w2. isWhiteSpace c"
    and s: "s \<noteq> []" and np: "\<not> prefix ''```json'' s"
  shows "\<not> prefix ''```json'' (s @ w2 @ ''```'' @ w3)"
proof
  assume "prefix ''```json'' (s @ w2 @ ''```'' @ w3)"
  from this np obtain us where us: "''```json'' = s @ us" "us \<noteq> []"
    "prefix us (w2 @ ''```'' @ w3)"
    by (rule prefix_straddle)
  from us(1) s us(2) have "us \<in> {''``json'', ''`json'', ''json'', ''son'', ''on'', ''n''}"
    by (rule json_fence_tails)
  then have "hd us \<in> {CHR ''`'', CHR ''j'', CHR ''s'', CHR ''o'', CHR ''n''}" by auto
  show False
  proof (cases w2)
    case Nil
    with us(3) have "prefix us (''```'' @ w3)" by simp
    with \<open>us \<in> _\<close> show False by auto
  next
    case (Cons a w)
    with w2 have "isWhiteSpace a" by simp
    moreover from Cons us(3) us(2) have "hd us = a" by (cases us) simp_all
    ultimately show False using \<open>hd us \<in> _\<close> by (auto simp: isWhiteSpace_def)
  qed
qed

lemma closing_after_whitespace_json:
  assumes w2: "\<forall>c\<in>set w2. isWhiteSpace c" and w3: "\<forall>c\<in>set w3. isWhiteSpace c"
  shows "remove_g ''```json'' (w2 @ ''```'' @ w3) = w2 @ ''```'' @ w3"
proof -
  have n: "\<not> prefix ''```json'' (''```'' @ w3)"
    using w3 by (cases w3) (auto simp: isWhiteSpace_def)
  have n1: "\<not> prefix ''```json'' (''``'' @ w3)"
    using w3 by (cases w3) (auto simp: isWhiteSpace_def)
  have n2: "\<not> prefix ''```json'' (''`'' @ w3)"
    using w3 by (cases w3) (auto simp: isWhiteSpace_def)
  have "remove_g ''```json'' (''```'' @ w3) = ''```'' @ remove_g ''```json'' w3"
    using n n1 n2 by (simp add: remove_g_nomatch)
  also have "remove_g ''```json'' w3 = w3"
    using w3 by (intro remove_g_whitespace) simp_all
  finally show ?thesis
    using remove_g_skip_whitespace [OF w2, of "''```json''" "''```'' @ w3"] by simp
qed

lemma remove_json_before_closing:
  assumes w2: "\<forall>c\<in>set w2. isWhiteSpace c" and w3: "\<forall>c\<in>set w3. isWhiteSpace c"
  shows "remove_g ''```json'' (t @ w2 @ ''```'' @ w3)
         = remove_g ''```json'' t @ w2 @ ''```'' @ w3"
proof -
  have "remove_g ''```json'' (t @ w2 @ ''```'' @ w3)
        = remove_g ''```json'' t @ remove_g ''```json'' (w2 @ ''```'' @ w3)"
    by (rule remove_g_append) (simp, rule no_straddle_json [OF w2])
  then show ?thesis by (simp only: closing_after_whitespace_json [OF w2 w3])
qed

lemma remove_fence_head:
  assumes w3: "\<forall>c\<in>set w3. isWhiteSpace c"
  shows "remove_g ''```'' (''```'' @ w3) = w3"
proof -
  have "remove_g ''```'' (''```'' @ w3) = remove_g ''```'' (drop (length ''```'') (''```'' @ w3))"
    by (rule remove_g_match) simp_all
  also have "\<dots> = remove_g ''```'' w3" by simp
  also have "\<dots> = w3" using w3 by (intro remove_g_whitespace) simp_all
  finally show ?thesis .
qed

lemma backticks_before_whitespace:
  assumes w3: "\<forall>c\<in>set w3. isWhiteSpace c"
  shows "remove_g ''```'' (''`'' @ w3) = ''`'' @ w3"
    and "remove_g ''```'' (''``'' @ w3) = ''``'' @ w3"
proof -
  have r: "remove_g ''```'' w3 = w3" using w3 by (intro remove_g_whitespace) simp_all
  have n1: "\<not> prefix ''```'' (''`'' @ w3)"
    using w3 by (cases w3) (auto simp: isWhiteSpace_def)
  have n2: "\<not> prefix ''```'' (''``'' @ w3)"
    using w3 by (cases w3) (auto simp: isWhiteSpace_def)
  show "remove_g ''```'' (''`'' @ w3) = ''`'' @ w3"
    using n1 r by (simp add: remove_g_nomatch)
  show "remove_g ''```'' (''``'' @ w3) = ''``'' @ w3"
    using n1 n2 r by (simp add: remove_g_nomatch)
qed

lemma remove_fence_straddle:
  assumes w3: "\<forall>c\<in>set w3. isWhiteSpace c"
    and s: "s = ''`'' \<or> s = ''``''"
  shows "remove_g ''```'' (s @ ''```'' @ w3) = remove_g ''```'' s @ w3"
proof -
  have "remove_g ''```'' (s @ ''```'' @ w3)
        = remove_g ''```'' (drop (length ''```'') (s @ ''```'' @ w3))"
    using s by (intro remove_g_match) auto
  also have "\<dots> = s @ w3" using s backticks_before_whitespace [OF w3] by auto
  finally have l: "remove_g ''```'' (s @ ''```'' @ w3) = s @ w3" .
  have r: "remove_g ''```'' s = s" using s by (auto simp: remove_g.simps)
  show ?thesis by (simp only: l r)
qed

lemma remove_fence_closing:
  assumes "pat = ''```''" and "\<forall>c\<in>set w3. isWhiteSpace c"
  shows "remove_g pat (u @ ''```'' @ w3) = remove_g pat u @ w3"
  using assms
proof (induction pat u rule: remove_g.induct)
  case (1 pat)
  then show ?case using remove_fence_head [of w3] by (simp add: remove_g.simps(1))
next
  case (2 pat c cs)
  note pat = "2.prems"(1) and w3 = "2.prems"(2)
  have ne: "pat \<noteq> []" using pat by simp
  show ?case
  proof (cases "prefix pat (c # cs)")
    case True
    then have p: "prefix pat ((c # cs) @ ''```'' @ w3)" by (rule prefix_prefix)
    have "remove_g pat ((c # cs) @ ''```'' @ w3)
          = remove_g pat (drop (length pat) ((c # cs) @ ''```'' @ w3))"
      using ne p by (rule remove_g_match)
    also have "\<dots> = remove_g pat (drop (length pat) (c # cs) @ ''```'' @ w3)"
      by (simp only: drop_match_append [OF True])
    also have "\<dots> = remove_g pat (drop (length pat) (c # cs)) @ w3"
      using "2.IH"(1) ne True pat w3 by blast
    also have "remove_g pat (drop (length pat) (c # cs)) = remove_g pat (c # cs)"
      using remove_g_match [OF ne True] by simp
    finally show ?thesis .
  next
    case False
    show ?thesis
    proof (cases "prefix pat ((c # cs) @ ''```'' @ w3)")
      case straddle: True
      from straddle False obtain us where us: "pat = (c # cs) @ us" "us \<noteq> []"
          "prefix us (''```'' @ w3)"
        by (rule prefix_straddle)
      have e: "''```'' = (c # cs) @ us" unfolding pat [symmetric] by (rule us(1))
      have "us \<in> {''``'', ''`''}" by (rule fence_tails [OF e _ us(2)]) simp
      with e have "c # cs = ''`'' \<or> c # cs = ''``''" by auto
      then show ?thesis using remove_fence_straddle [OF w3] pat by blast
    next
      case nostraddle: False
      then have "remove_g pat ((c # cs) @ ''```'' @ w3) = c # remove_g pat (cs @ ''```'' @ w3)"
        by (simp add: remove_g_nomatch)
      also have "\<dots> = c # (remove_g pat cs @ w3)"
        using "2.IH"(2) False pat w3 by blast
      also have "\<dots> = remove_g pat (c # cs) @ w3"
        using False by (simp add: remove_g_nomatch)
      finally show ?thesis .
    qed
  qed
qed

lemma no_straddle_fence_whitespace:
  assumes a: "isWhiteSpace a" and s: "s \<noteq> []" and np: "\<not> prefix ''```'' s"
  shows "\<not> prefix ''```'' (s @ a # y)"
proof
  assume "prefix ''```'' (s @ a # y)"
  from this np obtain us where us: "''```'' = s @ us" "us \<noteq> []" "prefix us (a # y)"
    by (rule prefix_straddle)
  from us(1) s us(2) have "us \<in> {''``'', ''`''}" by (rule fence_tails)
  with us(3) have "a = CHR ''`''" by auto
  with a show False by (simp add: isWhiteSpace_def)
qed

lemma remove_fence_before_closing:
  assumes w2: "\<forall>c\<in>set w2. isWhiteSpace c" and w3: "\<forall>c\<in>set w3. isWhiteSpace c"
  shows "remove_g ''```'' (u @ w2 @ ''```'' @ w3) = remove_g ''```'' u @ w2 @ w3"
proof (cases w2)
  case Nil
  then show ?thesis using remove_fence_closing [OF refl w3] by simp
next
  case (Cons a w)
  with w2 have a: "isWhiteSpace a" by simp
  have "remove_g ''```'' (u @ a # (w @ ''```'' @ w3))
        = remove_g ''```'' u @ remove_g ''```'' (a # (w @ ''```'' @ w3))"
    by (rule remove_g_append) (simp, rule no_straddle_fence_whitespace [OF a])
  moreover have "remove_g ''```'' (w2 @ ''```'' @ w3) = w2 @ w3"
    using remove_g_skip_whitespace [OF w2, of "''```''" "''```'' @ w3"]
      remove_fence_head [OF w3]
    by simp
  ultimately show ?thesis using Cons by simp
qed

lemma cleanedText_fenced:
  assumes "\<forall>c\<in>set (w0 @ w1 @ w2 @ w3). isWhiteSpace c"
  shows "cleanedText (fenced w0 w1 t w2 w3) = cleanedText t"
proof -
  from assms have w0: "\<forall>c\<in>set w0. isWhiteSpace c" and w1: "\<forall>c\<in>set w1. isWhiteSpace c"
    and w2: "\<forall>c\<in>set w2. isWhiteSpace c" and w3: "\<forall>c\<in>set w3. isWhiteSpace c"
    by auto
  let ?y = "w2 @ ''```'' @ w3"
  have "remove_g ''```json'' (fenced w0 w1 t w2 w3)
        = w0 @ remove_g ''```json'' (''```json'' @ w1 @ t @ ?y)"
    unfolding fenced_def using w0 by (intro remove_g_skip_whitespace) simp_all
  also have "remove_g ''```json'' (''```json'' @ w1 @ t @ ?y)
             = remove_g ''```json'' (drop (length ''```json'') (''```json'' @ w1 @ t @ ?y))"
    by (rule remove_g_match) simp_all
  also have "\<dots> = remove_g ''```json'' (w1 @ t @ ?y)" by simp
  also have "\<dots> = w1 @ remove_g ''```json'' (t @ ?y)"
    using w1 by (intro remove_g_skip_whitespace) simp_all
  also have "remove_g ''```json'' (t @ ?y) = remove_g ''```json'' t @ ?y"
    using w2 w3 by (rule remove_json_before_closing)
  finally have 1: "remove_g ''```json'' (fenced w0 w1 t w2 w3)
                   = (w0 @ w1) @ remove_g ''```json'' t @ ?y"
    by simp
  have w01: "\<forall>c\<in>set (w0 @ w1). isWhiteSpace c" using w0 w1 by auto
  have w23: "\<forall>c\<in>set (w2 @ w3). isWhiteSpace c" using w2 w3 by auto
  have "remove_g ''```'' ((w0 @ w1) @ remove_g ''```json'' t @ ?y)
        = (w0 @ w1) @ remove_g ''```'' (remove_g ''```json'' t @ ?y)"
    using w01 by (intro remove_g_skip_whitespace) simp_all
  also have "remove_g ''```'' (remove_g ''```json'' t @ ?y)
             = remove_g ''```'' (remove_g ''```json'' t) @ w2 @ w3"
    using w2 w3 by (rule remove_fence_before_closing)
  finally have 2: "remove_g ''```'' (remove_g ''```json'' (fenced w0 w1 t w2 w3))
                   = (w0 @ w1) @ remove_g ''```'' (remove_g ''```json'' t) @ (w2 @ w3)"
    by (simp only: 1)
  show ?thesis
    unfolding cleanedText_def 2 by (rule trim_padded [OF w01 w23])
qed


text \<open>
  C8, as amended. For every completion text \<open>t\<close>, wrapping \<open>t\<close> in a fenced code
  block, with optional white space around the fences, does not change the text that is
  parsed. So when that text is valid JSON the two records are the same; when it is
  not, both are degraded records with the same \<open>error\<close>, each with its own original
  text as \<open>raw\<close>.
\<close>

theorem fenced_same_parse:
  assumes "\<forall>c\<in>set (w0 @ w1 @ w2 @ w3). isWhiteSpace c"
  shows "cleanedText (fenced w0 w1 t w2 w3) = cleanedText t
    \<and> (JSON_parse (cleanedText t) \<noteq> None \<longrightarrow>
         normalize JSON_parse (JStr (fenced w0 w1 t w2 w3)) = normalize JSON_parse (JStr t))
    \<and> (JSON_parse (cleanedText t) = None \<longrightarrow>
         normalize JSON_parse (JStr (fenced w0 w1 t w2 w3)) = degraded (JStr (fenced w0 w1 t w2 w3))
         \<and> normalize JSON_parse (JStr t) = degraded (JStr t))"
  using cleanedText_fenced [OF assms, of t]
  by (auto simp: normalize_def)


theorem fenced_same_parse_witness:
  "cleanedText (fenced [] [CHR 0x0A] ''{\"taxes\":3.5}'' [CHR 0x0A] []) = ''{\"taxes\":3.5}''
   \<and> normalize JSON_parse_examples (JStr (fenced [] [CHR 0x0A] ''{\"taxes\":3.5}'' [CHR 0x0A] []))
       = normalize JSON_parse_examples (JStr ''{\"taxes\":3.5}'')"
proof -
  have w: "\<forall>c\<in>set ([] @ [CHR 0x0A] @ [CHR 0x0A] @ []). isWhiteSpace c"
    by (simp add: isWhiteSpace_def)
  have c: "cleanedText ''{\"taxes\":3.5}'' = ''{\"taxes\":3.5}''"
    by (simp add: cleanedText_def trim_def isWhiteSpace_def remove_g.simps)
  have p: "JSON_parse_examples (cleanedText ''{\"taxes\":3.5}'') \<noteq> None"
    by (simp only: c) (simp add: JSON_parse_examples_def)
  from fenced_same_parse [OF w, of "''{\"taxes\":3.5}''" JSON_parse_examples] p c
  show ?thesis by simp
qed


text \<open>
  The claim as stated fails for a completion that is not JSON: the record of the
  fenced text carries the fenced text as \<open>raw\<close>, the record of the bare text the bare
  text.
\<close>

theorem fenced_same_parse_counterexample:
  "normalize JSON_parse_examples
     (JStr (fenced [] [CHR 0x0A] ''Sorry, I cannot help.'' [CHR 0x0A] []))
   \<noteq> normalize JSON_parse_examples (JStr ''Sorry, I cannot help.'')"
proof -
  have c1: "cleanedText ''Sorry, I cannot help.'' = ''Sorry, I cannot help.''"
    by (simp add: cleanedText_def trim_def isWhiteSpace_def remove_g.simps)
  have c2: "cleanedText (fenced [] [CHR 0x0A] ''Sorry, I cannot help.'' [CHR 0x0A] [])
            = ''Sorry, I cannot help.''"
    by (simp add: fenced_def cleanedText_def trim_def isWhiteSpace_def remove_g.simps)
  have n: "JSON_parse_examples ''Sorry, I cannot help.'' = None"
    by (simp add: JSON_parse_examples_def)
  show ?thesis
    unfolding normalize_def json.case c1 c2 n option.case
    by (simp add: degraded_def fenced_def)
qed

section \<open>Properties of the display helpers\<close>

subsection \<open>calculateTotalDiscounts is sumCharges\<close>









subsection \<open>The sum and the order of the entries\<close>












subsection \<open>formatValue, case by case\<close>

declare digits.simps [simp del]



















end
